theory Spec2Isabelle
  imports Complex_Main "HOL-Library.Multiset" "HOL-Library.Product_Lexorder"
begin

section \<open>Backgrid header cells: sort direction, comparators and dispatch\<close>

text \<open>
  A shallow embedding of \<^verbatim>\<open>src/header.js\<close>: the \<^verbatim>\<open>HeaderCell\<close> view with its
  direction state, the comparator factory \<^verbatim>\<open>makeComparator\<close>, the dispatch \<^verbatim>\<open>sort\<close>
  against a Backbone collection, and the \<^verbatim>\<open>backgrid:sort\<close> broadcast that keeps the
  header cells of one collection in step.
\<close>

subsection \<open>JavaScript values\<close>

text \<open>
  Attribute values are JavaScript primitives; the numbers among them are the integers.
  A string is the list of its code units, and the type has the code units below 256.
  The result of a conversion to a number is any value of the number type: not a number, an
  infinity, or a finite number, which is a rational.
\<close>

datatype jsval = JUndefined | JNull | JBool bool | JNum int | JStr string

datatype jsnum = NaN | NegInfinity | Num rat | PosInfinity

text \<open>
  The numeric value of a string, as \<^verbatim>\<open>s * 1\<close> and the relational operators compute
  it. For a string of decimal digits whose value is below \<open>2 ^ 53\<close> the conversion is
  exact and is computed here: the empty string is 0, a run of digits is its decimal value.
  For every other string (a sign, a fraction, an exponent, a radix prefix,
  \<^verbatim>\<open>Infinity\<close>, white space, a value that has to be rounded, anything that is not a
  number) the result is the one of the JavaScript engine, which is a parameter.
\<close>

type_synonym engine = "string \<Rightarrow> jsnum"

definition is_digit :: "char \<Rightarrow> bool" where
  "is_digit c = (48 \<le> (of_char c :: nat) \<and> (of_char c :: nat) \<le> 57)"

definition digit_value :: "char \<Rightarrow> nat" where
  "digit_value c = of_char c - 48"

definition digits_value :: "string \<Rightarrow> nat" where
  "digits_value s = foldl (\<lambda>acc c. 10 * acc + digit_value c) 0 s"

definition StringToNumber :: "engine \<Rightarrow> string \<Rightarrow> jsnum" where
  "StringToNumber engine s =
     (if list_all is_digit s \<and> digits_value s < 2 ^ 53 then Num (of_nat (digits_value s))
      else engine s)"

fun ToNumber :: "engine \<Rightarrow> jsval \<Rightarrow> jsnum" where
  "ToNumber engine JUndefined = NaN"
| "ToNumber engine JNull = Num 0"
| "ToNumber engine (JBool b) = Num (if b then 1 else 0)"
| "ToNumber engine (JNum n) = Num (of_int n)"
| "ToNumber engine (JStr s) = StringToNumber engine s"

text \<open>
  The operators \<^verbatim>\<open><\<close> and \<^verbatim>\<open>>\<close> on numbers: every comparison with NaN is false, and
  the infinities lie below and above every finite number.
\<close>

fun num_less :: "jsnum \<Rightarrow> jsnum \<Rightarrow> bool" where
  "num_less NaN _ = False"
| "num_less _ NaN = False"
| "num_less _ NegInfinity = False"
| "num_less NegInfinity _ = True"
| "num_less PosInfinity _ = False"
| "num_less _ PosInfinity = True"
| "num_less (Num a) (Num b) = (a < b)"

definition num_greater :: "jsnum \<Rightarrow> jsnum \<Rightarrow> bool" where
  "num_greater a b = num_less b a"

text \<open>Two strings compare by their code units, a proper prefix first.\<close>

fun str_less :: "string \<Rightarrow> string \<Rightarrow> bool" where
  "str_less [] [] = False"
| "str_less [] (y # ys) = True"
| "str_less (x # xs) [] = False"
| "str_less (x # xs) (y # ys) =
     ((of_char x :: nat) < of_char y \<or> (x = y \<and> str_less xs ys))"

text \<open>
  \<^verbatim>\<open>left < right\<close> on values: two strings compare as strings, anything else after
  conversion to numbers.
\<close>

fun js_less :: "engine \<Rightarrow> jsval \<Rightarrow> jsval \<Rightarrow> bool" where
  "js_less engine (JStr a) (JStr b) = str_less a b"
| "js_less engine a b = num_less (ToNumber engine a) (ToNumber engine b)"

subsection \<open>Models\<close>

text \<open>
  A \<^verbatim>\<open>Backbone.Model\<close>: its client id (\<^verbatim>\<open>cid\<close>, a string that Backbone assigns at
  creation; \<open>None\<close> is \<^verbatim>\<open>undefined\<close>, for an object that is not a model) and its
  attributes.
\<close>

record model =
  cid :: "string option"
  attributes :: "string \<rightharpoonup> jsval"

text \<open>\<^verbatim>\<open>model.get(attr)\<close>: the attribute, \<^verbatim>\<open>undefined\<close> when it is not set.\<close>

definition get :: "model \<Rightarrow> string \<Rightarrow> jsval" where
  "get m attr = (case attributes m attr of None \<Rightarrow> JUndefined | Some v \<Rightarrow> v)"

text \<open>
  Backbone creates the cid of a model as \<^verbatim>\<open>_.uniqueId('c')\<close>: the letter c followed by
  the decimal digits of a counter that grows with every model created.
\<close>

definition digit_char :: "nat \<Rightarrow> char" where
  "digit_char d = char_of (48 + d)"

fun decimal :: "nat \<Rightarrow> string" where
  "decimal n = (if n < 10 then [digit_char n] else decimal (n div 10) @ [digit_char (n mod 10)])"

definition uniqueId :: "string \<Rightarrow> nat \<Rightarrow> string" where
  "uniqueId prefix idCounter = prefix @ decimal idCounter"

subsection \<open>The overridable value extractor and comparator of a header cell\<close>

type_synonym value_fn = "model \<Rightarrow> string \<Rightarrow> jsval"
type_synonym base_comparator = "jsval \<Rightarrow> jsval \<Rightarrow> int"
type_synonym model_comparator = "model \<Rightarrow> model \<Rightarrow> int"

text \<open>\<^verbatim>\<open>value: function (model, attr) { return model.get(attr); }\<close>\<close>

definition HeaderCell_value :: value_fn where
  "HeaderCell_value m attr = get m attr"

text \<open>The default \<^verbatim>\<open>comparator\<close>: \<^verbatim>\<open>===\<close> gives 0, \<^verbatim>\<open><\<close> gives -1, anything else 1.\<close>

definition HeaderCell_comparator :: "engine \<Rightarrow> base_comparator" where
  "HeaderCell_comparator engine left right =
     (if left = right then 0 else if js_less engine left right then - 1 else 1)"

text \<open>
  \<^verbatim>\<open>_cidComparator\<close>: when both cids are defined, the cids without their first
  character are converted to numbers and compared; in every other case the result is 0.
\<close>

definition cidComparator :: "engine \<Rightarrow> model_comparator" where
  "cidComparator engine left right =
     (case (cid left, cid right) of
        (Some lcid, Some rcid) \<Rightarrow>
          (let lnum = StringToNumber engine (drop 1 lcid);
               rnum = StringToNumber engine (drop 1 rcid)
           in if num_less lnum rnum then - 1
              else if num_greater lnum rnum then 1
              else 0)
      | _ \<Rightarrow> 0)"

subsection \<open>Sorting an array with a comparator\<close>

text \<open>
  \<^verbatim>\<open>Array.prototype.sort(compareFn)\<close>, which Backbone calls on the array of models with
  a two-argument comparator. The language fixes the result for a consistent comparator
  (the elements in ascending order by the comparator, equal elements in their original
  order); this is the stable insertion sort that computes it.
\<close>

fun insert_sorted :: "('a \<Rightarrow> 'a \<Rightarrow> int) \<Rightarrow> 'a \<Rightarrow> 'a list \<Rightarrow> 'a list" where
  "insert_sorted cmp x [] = [x]"
| "insert_sorted cmp x (y # ys) =
     (if cmp x y \<le> 0 then x # y # ys else y # insert_sorted cmp x ys)"

fun Array_sort :: "('a \<Rightarrow> 'a \<Rightarrow> int) \<Rightarrow> 'a list \<Rightarrow> 'a list" where
  "Array_sort cmp [] = []"
| "Array_sort cmp (x # xs) = insert_sorted cmp x (Array_sort cmp xs)"

subsection \<open>Collections\<close>

datatype error = TypeError string | Error string

text \<open>
  A \<^verbatim>\<open>Backbone.Collection\<close>: its models in their current order and its comparator,
  when one is set. The comparators that occur here are two-argument functions.
\<close>

record backbone_collection =
  models :: "model list"
  comparator :: "model_comparator option"

text \<open>\<^verbatim>\<open>Collection.sort\<close> of Backbone: it throws when the collection has no comparator.\<close>

definition Collection_sort ::
  "'a backbone_collection_scheme \<Rightarrow> error + 'a backbone_collection_scheme" where
  "Collection_sort c =
     (case comparator c of
        None \<Rightarrow> Inl (Error ''Cannot sort a set without a comparator'')
      | Some cmp \<Rightarrow> Inr (c\<lparr>models := Array_sort cmp (models c)\<rparr>))"

text \<open>
  The collection a header cell works on: a plain \<^verbatim>\<open>Backbone.Collection\<close>, or a
  \<^verbatim>\<open>Backbone.PageableCollection\<close> (\<open>pageable\<close>), which also has a mode, the full
  collection behind the current page and the recorded sorting state. For a plain
  collection the further fields are not read.
\<close>

record grid_collection = backbone_collection +
  pageable :: bool
  mode :: string
  fullCollection :: backbone_collection
  sortKey :: "string option"
  order :: "int option"

text \<open>
  \<^verbatim>\<open>PageableCollection.setSorting(sortKey, order, options)\<close> records the sorting
  parameters in the state of the collection. The library is not part of
  \<^verbatim>\<open>header.js\<close>; what else it does with its options is left out.
\<close>

definition setSorting :: "grid_collection \<Rightarrow> string option \<Rightarrow> int option \<Rightarrow> grid_collection" where
  "setSorting c key ord = c\<lparr>sortKey := key, order := ord\<rparr>"

subsection \<open>Columns and header cells\<close>

text \<open>
  Modelled from the spec: \<^verbatim>\<open>Backgrid.callByNeed\<close>, which is not part of
  \<^verbatim>\<open>header.js\<close>. The \<^verbatim>\<open>sortable\<close> attribute of a column is a boolean or a predicate
  that is evaluated against the context record at every activation.
\<close>

datatype sortability = Always bool | ByContext "model option \<Rightarrow> bool"

fun callByNeed :: "sortability \<Rightarrow> model option \<Rightarrow> bool" where
  "callByNeed (Always b) context = b"
| "callByNeed (ByContext f) context = f context"

record column =
  name :: string
  label :: string
  sortable :: sortability
  column_comparator :: "base_comparator option"
  column_value :: "value_fn option"

type_synonym cref = nat

text \<open>
  A \<^verbatim>\<open>HeaderCell\<close>. \<open>collection\<close> is the reference to the collection it was created
  with and listens to; \<open>el_classes\<close> are the class names on its element \<^verbatim>\<open>$el\<close>
  (a class name is taken whole); \<open>private_direction\<close> is the property
  \<^verbatim>\<open>_direction\<close>, with \<open>None\<close> for \<^verbatim>\<open>null\<close>.
\<close>

record header_cell =
  column :: column
  collection :: cref
  this_model :: "model option"
  this_comparator :: base_comparator
  this_value :: value_fn
  el_classes :: "string set"
  private_direction :: "string option"

text \<open>
  Modelled from the spec: \<^verbatim>\<open>Backgrid.requireOptions\<close>, which is not part of
  \<^verbatim>\<open>header.js\<close>: a missing column or collection is a fatal configuration error raised
  at construction time.
\<close>

record options =
  opt_column :: "column option"
  opt_collection :: "cref option"
  opt_model :: "model option"
  opt_comparator :: "base_comparator option"
  opt_value :: "value_fn option"

definition initialize :: "engine \<Rightarrow> options \<Rightarrow> error + header_cell" where
  "initialize engine opts =
     (case (opt_column opts, opt_collection opts) of
        (Some col, Some c) \<Rightarrow>
          Inr \<lparr>column = col, collection = c, this_model = opt_model opts,
               this_comparator =
                 (case column_comparator col of Some f \<Rightarrow> f
                  | None \<Rightarrow> (case opt_comparator opts of Some f \<Rightarrow> f
                             | None \<Rightarrow> HeaderCell_comparator engine)),
               this_value =
                 (case column_value col of Some f \<Rightarrow> f
                  | None \<Rightarrow> (case opt_value opts of Some f \<Rightarrow> f
                             | None \<Rightarrow> HeaderCell_value)),
               el_classes = {}, private_direction = None\<rparr>
      | (None, _) \<Rightarrow> Inl (TypeError ''column'')
      | (_, None) \<Rightarrow> Inl (TypeError ''collection''))"

text \<open>
  \<^verbatim>\<open>direction()\<close> without an argument reads the direction; with an argument it removes
  the class of the old direction, adds the class of the new one (each when truthy: neither
  null nor the empty string) and stores the new direction.
\<close>

definition direction_get :: "header_cell \<Rightarrow> string option" where
  "direction_get this = private_direction this"

definition truthy :: "string option \<Rightarrow> bool" where
  "truthy s = (case s of None \<Rightarrow> False | Some t \<Rightarrow> t \<noteq> [])"

definition direction_set :: "header_cell \<Rightarrow> string option \<Rightarrow> header_cell" where
  "direction_set this dir =
     (let removed = (if truthy (private_direction this)
                     then el_classes this - {the (private_direction this)}
                     else el_classes this);
          added = (if truthy dir then insert (the dir) removed else removed)
      in this\<lparr>el_classes := added, private_direction := dir\<rparr>)"

subsection \<open>The broadcast\<close>

text \<open>The arguments of a \<^verbatim>\<open>backgrid:sort\<close> event.\<close>

record sort_event =
  sortByColName :: string
  ev_direction :: "string option"
  ev_comparator :: model_comparator
  ev_collection :: cref

text \<open>The handler of \<^verbatim>\<open>backgrid:sort\<close> in a header cell.\<close>

definition resetCellDirection :: "header_cell \<Rightarrow> sort_event \<Rightarrow> header_cell" where
  "resetCellDirection this ev =
     (if ev_collection ev = collection this then
        (if sortByColName ev \<noteq> name (column this) then direction_set this None
         else direction_set this (ev_direction ev))
      else this)"

text \<open>
  The world: the header cells alive, the collections by reference, the calls made on the
  collections so far, in order, and the JavaScript engine that runs the code.
\<close>

datatype call =
    SetSorting cref "string option" "int option"
  | Sort cref
  | FullCollectionSort cref
  | Fetch cref
  | Trigger cref sort_event

record world =
  cells :: "header_cell list"
  collections :: "cref \<Rightarrow> grid_collection"
  calls :: "call list"
  engine :: engine

text \<open>
  \<^verbatim>\<open>collection.trigger("backgrid:sort", ...)\<close>: the handler of every header cell that
  listens to this collection runs (\<^verbatim>\<open>initialize\<close> registers a cell on its own
  collection).
\<close>

definition trigger :: "cref \<Rightarrow> sort_event \<Rightarrow> world \<Rightarrow> world" where
  "trigger source ev w =
     w\<lparr>cells := map (\<lambda>cell. if collection cell = source then resetCellDirection cell ev
                            else cell) (cells w),
       calls := calls w @ [Trigger source ev]\<rparr>"

subsection \<open>The comparator factory and the dispatch\<close>

definition makeComparator :: "header_cell \<Rightarrow> string \<Rightarrow> int option \<Rightarrow> model_comparator option" where
  "makeComparator this attr ord =
     (if attr = [] \<or> ord = None \<or> ord = Some 0 then None
      else
        let invert = (ord = Some 1); cmp = this_comparator this; val = this_value this
        in if invert
           then Some (\<lambda>left right. cmp (val right attr) (val left attr))
           else Some (\<lambda>left right. cmp (val left attr) (val right attr)))"

text \<open>The first line of \<^verbatim>\<open>sort\<close>: the order that stands for a direction.\<close>

definition direction_order :: "string option \<Rightarrow> int option" where
  "direction_order direction =
     (if direction = Some ''ascending'' then Some (- 1)
      else if direction = Some ''descending'' then Some 1
      else None)"

text \<open>
  The branches of \<^verbatim>\<open>sort\<close> on the kind of collection: the collection after them and
  the calls made on it. \<open>pageable\<close> stands for the test that the library is loaded and
  the collection is an instance of it. In client mode the full collection is sorted (how
  the library then derives the current page from it is left out); in the other modes
  \<^verbatim>\<open>fetch({reset: true})\<close> is called, whose answer arrives later and is not part of
  this step.
\<close>

definition dispatch ::
  "cref \<Rightarrow> grid_collection \<Rightarrow> string \<Rightarrow> int option \<Rightarrow> model_comparator
     \<Rightarrow> error + (grid_collection \<times> call list)" where
  "dispatch c coll columnName ord cmp =
     (if pageable coll then
        let key = (if ord \<noteq> None \<and> ord \<noteq> Some 0 then Some columnName else None);
            coll1 = setSorting coll key ord
        in if mode coll1 = ''client'' then
             let full = fullCollection coll1;
                 full1 = (if comparator full = None then full\<lparr>comparator := Some cmp\<rparr>
                          else full)
             in case Collection_sort full1 of
                  Inl e \<Rightarrow> Inl e
                | Inr full2 \<Rightarrow>
                    Inr (coll1\<lparr>fullCollection := full2\<rparr>,
                         [SetSorting c key ord, FullCollectionSort c])
           else Inr (coll1, [SetSorting c key ord, Fetch c])
      else
        case Collection_sort (coll\<lparr>comparator := Some cmp\<rparr>) of
          Inl e \<Rightarrow> Inl e
        | Inr coll1 \<Rightarrow> Inr (coll1, [Sort c]))"

text \<open>\<^verbatim>\<open>sort(columnName, direction)\<close> on the header cell at position \<open>i\<close>.\<close>

definition sort_cell :: "nat \<Rightarrow> string \<Rightarrow> string option \<Rightarrow> world \<Rightarrow> error + world" where
  "sort_cell i columnName direction w =
     (let this = cells w ! i;
          ord = direction_order direction;
          cmp = (case makeComparator this columnName ord of
                   Some f \<Rightarrow> f
                 | None \<Rightarrow> cidComparator (engine w));
          c = collection this
      in case dispatch c (collections w c) columnName ord cmp of
           Inl e \<Rightarrow> Inl e
         | Inr (coll1, cs) \<Rightarrow>
             Inr (trigger c
                    \<lparr>sortByColName = columnName, ev_direction = direction,
                     ev_comparator = cmp, ev_collection = c\<rparr>
                    (w\<lparr>collections := (collections w)(c := coll1),
                       calls := calls w @ cs\<rparr>)))"

text \<open>
  The handler of a click on the anchor of the header cell at position \<open>i\<close>. Its first
  statement, \<^verbatim>\<open>e.preventDefault()\<close>, acts on the event object of the caller only.
\<close>

definition onClick :: "nat \<Rightarrow> world \<Rightarrow> error + world" where
  "onClick i w =
     (let this = cells w ! i;
          col = column this;
          columnName = name col;
          is_sortable = callByNeed (sortable col) (this_model this)
      in if is_sortable then
           (if direction_get this = Some ''ascending''
            then sort_cell i columnName (Some ''descending'') w
            else if direction_get this = Some ''descending''
            then sort_cell i columnName None w
            else sort_cell i columnName (Some ''ascending'') w)
         else Inr w)"

subsection \<open>Auxiliary notions for the properties\<close>

text \<open>The result of a comparator that may be absent, on a pair of models.\<close>

definition apply_comparator :: "model_comparator option \<Rightarrow> model \<Rightarrow> model \<Rightarrow> int option" where
  "apply_comparator f left right = map_option (\<lambda>g. g left right) f"

text \<open>A base comparator that answers a swapped pair with the negated result, on a set of values.\<close>

definition antisymmetric_on :: "jsval set \<Rightarrow> base_comparator \<Rightarrow> bool" where
  "antisymmetric_on V cmp = (\<forall>a\<in>V. \<forall>b\<in>V. cmp b a = - cmp a b)"

text \<open>
  The comparator that \<^verbatim>\<open>sort\<close> computes in its second line, and the event it broadcasts.
\<close>

definition sort_comparator ::
  "engine \<Rightarrow> header_cell \<Rightarrow> string \<Rightarrow> string option \<Rightarrow> model_comparator" where
  "sort_comparator e this columnName direction =
     (case makeComparator this columnName (direction_order direction) of
        Some f \<Rightarrow> f
      | None \<Rightarrow> cidComparator e)"

definition sort_event_of ::
  "engine \<Rightarrow> header_cell \<Rightarrow> string \<Rightarrow> string option \<Rightarrow> sort_event" where
  "sort_event_of e this columnName direction =
     \<lparr>sortByColName = columnName, ev_direction = direction,
      ev_comparator = sort_comparator e this columnName direction,
      ev_collection = collection this\<rparr>"

text \<open>
  The broadcasts among the calls made on the collections, and the name of a call.
\<close>

fun broadcasts :: "call list \<Rightarrow> (cref \<times> sort_event) list" where
  "broadcasts [] = []"
| "broadcasts (Trigger c ev # cs) = (c, ev) # broadcasts cs"
| "broadcasts (_ # cs) = broadcasts cs"

fun call_name :: "call \<Rightarrow> string" where
  "call_name (SetSorting c key ord) = ''setSorting''"
| "call_name (Sort c) = ''sort''"
| "call_name (FullCollectionSort c) = ''fullCollection.sort''"
| "call_name (Fetch c) = ''fetch''"
| "call_name (Trigger c ev) = ''trigger''"

text \<open>
  The calls that the branch of \<^verbatim>\<open>sort\<close> for a collection makes on it, by name.
\<close>

definition branch_calls :: "grid_collection \<Rightarrow> string list" where
  "branch_calls coll =
     (if pageable coll
      then (if mode coll = ''client'' then [''setSorting'', ''fullCollection.sort'']
            else [''setSorting'', ''fetch''])
      else [''sort''])"

text \<open>
  The cycle of directions in the words of the specification: ascending, then
  descending, then none, then ascending again.
\<close>

definition next_direction :: "string option \<Rightarrow> string option" where
  "next_direction d =
     (if d = Some ''ascending'' then Some ''descending''
      else if d = Some ''descending'' then None
      else Some ''ascending'')"

text \<open>
  The header cells that listen to a collection, and those of them that hold a direction.
\<close>

definition listeners :: "cref \<Rightarrow> world \<Rightarrow> header_cell list" where
  "listeners c w = filter (\<lambda>cell. collection cell = c) (cells w)"

definition active :: "cref \<Rightarrow> world \<Rightarrow> header_cell list" where
  "active c w = filter (\<lambda>cell. private_direction cell \<noteq> None) (listeners c w)"






subsection \<open>Example data\<close>

text \<open>
  The engine of the examples. Their cids and ages are converted by the model itself, so
  that the engine is never asked; it answers that a string is not a number.
\<close>

definition example_engine :: engine where
  "example_engine s = NaN"

text \<open>
  A sortable column \<^verbatim>\<open>age\<close>, the header cell that \<^verbatim>\<open>initialize\<close> builds for it on the
  collection 0 without overrides, and models with an age, created in the order of their
  first argument.
\<close>

definition age_column :: column where
  "age_column = \<lparr>name = ''age'', label = ''Age'', sortable = Always True,
                  column_comparator = None, column_value = None\<rparr>"

definition age_cell :: header_cell where
  "age_cell = \<lparr>column = age_column, collection = 0, this_model = None,
                this_comparator = HeaderCell_comparator example_engine,
                this_value = HeaderCell_value,
                el_classes = {}, private_direction = None\<rparr>"

definition person :: "nat \<Rightarrow> int \<Rightarrow> model" where
  "person k age = \<lparr>cid = Some (uniqueId ''c'' k), attributes = [''age'' \<mapsto> JNum age]\<rparr>"

text \<open>
  Further header cells: a column \<^verbatim>\<open>name\<close> that is sorted descending at the moment,
  a column \<^verbatim>\<open>id\<close> that is not sortable, and the \<^verbatim>\<open>age\<close> cell of another grid on
  the collection 1. A plain collection of three persons, the same as a pageable collection
  in client mode and in server mode, and the world of these cells over a collection.
\<close>

definition name_cell :: header_cell where
  "name_cell = \<lparr>column = \<lparr>name = ''name'', label = ''Name'', sortable = Always True,
                           column_comparator = None, column_value = None\<rparr>,
                 collection = 0, this_model = None,
                 this_comparator = HeaderCell_comparator example_engine,
                this_value = HeaderCell_value,
                 el_classes = {''descending''}, private_direction = Some ''descending''\<rparr>"

definition locked_cell :: header_cell where
  "locked_cell = \<lparr>column = \<lparr>name = ''id'', label = ''Id'', sortable = Always False,
                             column_comparator = None, column_value = None\<rparr>,
                   collection = 0, this_model = None,
                   this_comparator = HeaderCell_comparator example_engine,
                this_value = HeaderCell_value,
                   el_classes = {}, private_direction = None\<rparr>"

definition other_cell :: header_cell where
  "other_cell = age_cell\<lparr>collection := 1, el_classes := {''ascending''},
                          private_direction := Some ''ascending''\<rparr>"

definition age_collection :: grid_collection where
  "age_collection = \<lparr>models = [person 1 30, person 2 10, person 3 20], comparator = None,
                      pageable = False, mode = [],
                      fullCollection = \<lparr>models = [], comparator = None\<rparr>,
                      sortKey = None, order = None\<rparr>"

definition client_collection :: grid_collection where
  "client_collection = age_collection\<lparr>pageable := True, mode := ''client'',
     fullCollection := \<lparr>models = [person 1 30, person 2 10, person 3 20], comparator = None\<rparr>\<rparr>"

definition server_collection :: grid_collection where
  "server_collection = age_collection\<lparr>pageable := True, mode := ''server''\<rparr>"

definition grid_world :: "grid_collection \<Rightarrow> world" where
  "grid_world coll = \<lparr>cells = [age_cell, name_cell, locked_cell, other_cell],
                       collections = (\<lambda>c. coll), calls = [], engine = example_engine\<rparr>"

text \<open>
  Two grids over the one collection 0, each with its own header cell for the column
  \<^verbatim>\<open>age\<close>; and a collection whose models are not in the order of their creation.
\<close>

definition twin_world :: world where
  "twin_world = \<lparr>cells = [age_cell, name_cell, age_cell],
                  collections = (\<lambda>c. age_collection), calls = [],
                  engine = example_engine\<rparr>"


section \<open>Properties\<close>

subsection \<open>Client ids and their numbers\<close>

declare decimal.simps [simp del]

lemma digit_char_is_digit: "d < 10 \<Longrightarrow> is_digit (digit_char d)"
  by (simp add: is_digit_def digit_char_def)

lemma digit_value_digit_char: "d < 10 \<Longrightarrow> digit_value (digit_char d) = d"
  by (simp add: digit_value_def digit_char_def)

lemma decimal_all_digits: "list_all is_digit (decimal n)"
proof (induction n rule: decimal.induct)
  case (1 n)
  show ?case
  proof (cases "n < 10")
    case True
    then show ?thesis by (subst decimal.simps) (simp add: digit_char_is_digit)
  next
    case False
    then have "list_all is_digit (decimal (n div 10))" using 1 by simp
    moreover have "is_digit (digit_char (n mod 10))" by (simp add: digit_char_is_digit)
    ultimately show ?thesis using False by (subst decimal.simps) simp
  qed
qed

lemma decimal_value: "digits_value (decimal n) = n"
proof (induction n rule: decimal.induct)
  case (1 n)
  show ?case
  proof (cases "n < 10")
    case True
    then show ?thesis
      by (subst decimal.simps) (simp add: digits_value_def digit_value_digit_char)
  next
    case False
    then have "digits_value (decimal (n div 10)) = n div 10"
      using 1 by simp
    moreover have "digit_value (digit_char (n mod 10)) = n mod 10"
      by (simp add: digit_value_digit_char)
    ultimately have "digits_value (decimal (n div 10) @ [digit_char (n mod 10)]) = n"
      by (simp add: digits_value_def)
    then show ?thesis using False
      by (subst decimal.simps) simp
  qed
qed

lemma StringToNumber_decimal:
  "n < 2 ^ 53 \<Longrightarrow> StringToNumber e (decimal n) = Num (of_nat n)"
  by (simp add: StringToNumber_def decimal_all_digits decimal_value)

lemma cid_suffix_uniqueId:
  "n < 2 ^ 53 \<Longrightarrow> StringToNumber e (drop 1 (uniqueId ''c'' n)) = Num (of_nat n)"
  by (simp add: uniqueId_def StringToNumber_decimal)

lemma cid_undefined:
  "cid left = None \<or> cid right = None \<Longrightarrow> cidComparator e left right = 0"
  by (cases "cid left"; cases "cid right") (simp_all add: cidComparator_def)

lemma cid_numbers:
  "cid left = Some lcid \<Longrightarrow> cid right = Some rcid \<Longrightarrow>
   StringToNumber e (drop 1 lcid) = Num m \<Longrightarrow> StringToNumber e (drop 1 rcid) = Num n \<Longrightarrow>
   cidComparator e left right = (if m < n then - 1 else if n < m then 1 else 0)"
  by (simp add: cidComparator_def Let_def num_greater_def)

lemma cid_NaN:
  "cid left = Some lcid \<Longrightarrow> cid right = Some rcid \<Longrightarrow>
   StringToNumber e (drop 1 lcid) = NaN \<or> StringToNumber e (drop 1 rcid) = NaN \<Longrightarrow>
   cidComparator e left right = 0"
  by (cases "StringToNumber e (drop 1 lcid)"; cases "StringToNumber e (drop 1 rcid)")
     (simp_all add: cidComparator_def Let_def num_greater_def)

lemma cid_person: "cid (person k a) = Some (uniqueId ''c'' k)"
  by (simp add: person_def)

lemma age_person: "HeaderCell_value (person k a) ''age'' = JNum a"
  by (simp add: person_def HeaderCell_value_def get_def)

lemma HeaderCell_comparator_numbers:
  "HeaderCell_comparator e (JNum a) (JNum b) = (if a = b then 0 else if a < b then - 1 else 1)"
  by (simp add: HeaderCell_comparator_def)

text \<open>
  The default comparator is not a total order on all values: against \<^verbatim>\<open>undefined\<close> a
  number is greater in both directions.
\<close>

lemma HeaderCell_comparator_undefined:
  "HeaderCell_comparator e JUndefined (JNum n) = 1 \<and>
   HeaderCell_comparator e (JNum n) JUndefined = 1"
  by (simp add: HeaderCell_comparator_def)

text \<open>The example cell is the one that \<^verbatim>\<open>initialize\<close> builds.\<close>

lemma initialize_age_cell:
  "initialize example_engine \<lparr>opt_column = Some age_column, opt_collection = Some 0, opt_model = None,
               opt_comparator = None, opt_value = None\<rparr> = Inr age_cell"
  by (simp add: initialize_def age_cell_def age_column_def)

lemma initialize_requires:
  "opt_column opts = None \<or> opt_collection opts = None \<Longrightarrow> isl (initialize e opts)"
  by (cases "opt_column opts"; cases "opt_collection opts") (simp_all add: initialize_def)










lemma grid_world_cells:
  "cells (grid_world coll) = [age_cell, name_cell, locked_cell, other_cell]"
  "collections (grid_world coll) c = coll"
  "calls (grid_world coll) = []"
  "engine (grid_world coll) = example_engine"
  by (simp_all add: grid_world_def)

lemma age_cell_fields:
  "column age_cell = age_column" "collection age_cell = 0" "this_model age_cell = None"
  "this_comparator age_cell = HeaderCell_comparator example_engine"
  "this_value age_cell = HeaderCell_value"
  "el_classes age_cell = {}" "private_direction age_cell = None"
  by (simp_all add: age_cell_def)

lemma age_column_fields: "name age_column = ''age''" "sortable age_column = Always True"
  by (simp_all add: age_column_def)


lemma get_person: "get (person k a) ''age'' = JNum a"
  by (simp add: person_def get_def)

lemma listeners_grid_world:
  "listeners 0 (grid_world coll) = [age_cell, name_cell, locked_cell]"
  by (simp add: listeners_def grid_world_cells age_cell_fields name_cell_def locked_cell_def
      other_cell_def)

subsection \<open>The comparator factory\<close>

text \<open>
  Claim C1, as amended. The first line of \<^verbatim>\<open>sort\<close> maps the direction ascending to
  the order -1, descending to +1 and null to no order. For a non-empty attribute,
  \<^verbatim>\<open>makeComparator\<close> with the order -1 produces the comparator that applies the base
  comparator to the extracted values in their natural order (left, then right); with the
  order +1 it produces the one that applies the base comparator to the swapped values
  (right, then left). It is +1, not -1, that inverts.
\<close>

theorem makeComparator_sign:
  "direction_order (Some ''ascending'') = Some (- 1) \<and>
   direction_order (Some ''descending'') = Some 1 \<and>
   direction_order None = None \<and>
   (attr \<noteq> [] \<longrightarrow>
      apply_comparator (makeComparator this attr (Some (- 1))) left right =
        Some (this_comparator this (this_value this left attr) (this_value this right attr)) \<and>
      apply_comparator (makeComparator this attr (Some 1)) left right =
        Some (this_comparator this (this_value this right attr) (this_value this left attr)))"
  by (simp add: direction_order_def makeComparator_def apply_comparator_def Let_def)

theorem makeComparator_sign_witness:
  "''age'' \<noteq> [] \<and>
   apply_comparator (makeComparator age_cell ''age'' (Some (- 1))) (person 1 10) (person 2 20)
     = Some (- 1) \<and>
   apply_comparator (makeComparator age_cell ''age'' (Some 1)) (person 1 10) (person 2 20)
     = Some 1"
  using makeComparator_sign [of "''age''" age_cell "person 1 10" "person 2 20"]
  by (simp add: age_cell_def age_person HeaderCell_comparator_numbers)

text \<open>
  The claim C1 as it was stated fails: with the order -1 the produced comparator gives
  -1 on the ages 10 and 20, while the base comparator on the swapped values gives 1.
\<close>

theorem makeComparator_minus_one_not_swapped:
  "apply_comparator (makeComparator age_cell ''age'' (Some (- 1))) (person 1 10) (person 2 20)
     \<noteq> Some (this_comparator age_cell (this_value age_cell (person 2 20) ''age'')
                (this_value age_cell (person 1 10) ''age''))"
  by (simp add: makeComparator_def apply_comparator_def Let_def age_cell_def age_person
      HeaderCell_comparator_numbers)

text \<open>
  Claim C5. When the base comparator answers every swapped pair of the extracted values
  with the negated result (a total order with ties 0 does), then for every attribute and
  every pair of records the comparator that \<^verbatim>\<open>makeComparator\<close> produces for -1 returns
  the exact negation of the one it produces for +1. Both comparators are produced whenever
  the attribute is not empty; for the empty attribute neither is.
\<close>

theorem makeComparator_negation:
  assumes "antisymmetric_on V (this_comparator this)"
    and "this_value this left attr \<in> V" and "this_value this right attr \<in> V"
  shows "apply_comparator (makeComparator this attr (Some (- 1))) left right =
           map_option uminus (apply_comparator (makeComparator this attr (Some 1)) left right) \<and>
         (attr \<noteq> [] \<longrightarrow> makeComparator this attr (Some (- 1)) \<noteq> None \<and>
                          makeComparator this attr (Some 1) \<noteq> None)"
proof -
  have "this_comparator this (this_value this right attr) (this_value this left attr) =
          - this_comparator this (this_value this left attr) (this_value this right attr)"
    using assms unfolding antisymmetric_on_def by blast
  then show ?thesis
    by (simp add: makeComparator_def apply_comparator_def Let_def)
qed

theorem makeComparator_negation_witness:
  "antisymmetric_on (range JNum) (this_comparator age_cell) \<and>
   this_value age_cell (person 1 30) ''age'' \<in> range JNum \<and>
   this_value age_cell (person 2 10) ''age'' \<in> range JNum \<and>
   apply_comparator (makeComparator age_cell ''age'' (Some (- 1))) (person 1 30) (person 2 10)
     = Some 1 \<and>
   apply_comparator (makeComparator age_cell ''age'' (Some 1)) (person 1 30) (person 2 10)
     = Some (- 1)"
proof -
  have h: "antisymmetric_on (range JNum) (this_comparator age_cell)"
    by (auto simp add: antisymmetric_on_def age_cell_def HeaderCell_comparator_numbers)
  have l: "this_value age_cell (person 1 30) ''age'' \<in> range JNum"
    by (simp add: age_cell_def age_person)
  have r: "this_value age_cell (person 2 10) ''age'' \<in> range JNum"
    by (simp add: age_cell_def age_person)
  have "apply_comparator (makeComparator age_cell ''age'' (Some 1)) (person 1 30) (person 2 10)
          = Some (- 1)"
    by (simp add: makeComparator_def apply_comparator_def Let_def age_cell_def age_person
        HeaderCell_comparator_numbers)
  with makeComparator_negation [OF h l r] h l r show ?thesis
    by simp
qed

subsection \<open>The insertion-order comparator\<close>

text \<open>
  Claim C10. \<^verbatim>\<open>_cidComparator\<close> returns 0 whenever the cid of either record is
  undefined. When both cids are defined it compares the numbers that the cids denote after
  their first character: -1 when the left number is smaller, 1 when it is greater, 0 when
  the numbers are equal (and 0 when a suffix is not a number). This holds for every cid
  string and every engine. For the cids that Backbone assigns, the letter c and a counter
  below \<open>2 ^ 53\<close>, it is the comparison of the counters.
\<close>

theorem cidComparator_cases:
  "(cid left = None \<or> cid right = None \<longrightarrow> cidComparator e left right = 0) \<and>
   (cid left = Some lcid \<and> cid right = Some rcid \<and>
    StringToNumber e (drop 1 lcid) = Num m \<and> StringToNumber e (drop 1 rcid) = Num n \<longrightarrow>
      cidComparator e left right = (if m < n then - 1 else if n < m then 1 else 0)) \<and>
   (cid left = Some lcid \<and> cid right = Some rcid \<and>
    (StringToNumber e (drop 1 lcid) = NaN \<or> StringToNumber e (drop 1 rcid) = NaN) \<longrightarrow>
      cidComparator e left right = 0) \<and>
   (cid left = Some (uniqueId ''c'' i) \<and> cid right = Some (uniqueId ''c'' j) \<and>
    i < 2 ^ 53 \<and> j < 2 ^ 53 \<longrightarrow>
      cidComparator e left right = (if i < j then - 1 else if j < i then 1 else 0))"
proof (intro conjI impI)
  assume "cid left = None \<or> cid right = None"
  then show "cidComparator e left right = 0" by (rule cid_undefined)
next
  assume a: "cid left = Some lcid \<and> cid right = Some rcid \<and>
    StringToNumber e (drop 1 lcid) = Num m \<and> StringToNumber e (drop 1 rcid) = Num n"
  from a have l: "cid left = Some lcid" and r: "cid right = Some rcid"
    and m: "StringToNumber e (drop 1 lcid) = Num m"
    and n: "StringToNumber e (drop 1 rcid) = Num n"
    by simp_all
  show "cidComparator e left right = (if m < n then - 1 else if n < m then 1 else 0)"
    by (rule cid_numbers [OF l r m n])
next
  assume a: "cid left = Some lcid \<and> cid right = Some rcid \<and>
    (StringToNumber e (drop 1 lcid) = NaN \<or> StringToNumber e (drop 1 rcid) = NaN)"
  from a have l: "cid left = Some lcid" and r: "cid right = Some rcid"
    and n: "StringToNumber e (drop 1 lcid) = NaN \<or> StringToNumber e (drop 1 rcid) = NaN"
    by simp_all
  show "cidComparator e left right = 0"
    by (rule cid_NaN [OF l r n])
next
  assume a: "cid left = Some (uniqueId ''c'' i) \<and> cid right = Some (uniqueId ''c'' j) \<and>
    i < 2 ^ 53 \<and> j < 2 ^ 53"
  from a have l: "cid left = Some (uniqueId ''c'' i)" and r: "cid right = Some (uniqueId ''c'' j)"
    and i: "i < 2 ^ 53" and j: "j < 2 ^ 53"
    by simp_all
  have "cidComparator e left right =
          (if (of_nat i :: rat) < of_nat j then - 1 else if (of_nat j :: rat) < of_nat i then 1 else 0)"
    by (rule cid_numbers [OF l r cid_suffix_uniqueId [OF i] cid_suffix_uniqueId [OF j]])
  then show "cidComparator e left right = (if i < j then - 1 else if j < i then 1 else 0)"
    by simp
qed

theorem cidComparator_cases_witness:
  "cid (person 2 30) = Some (uniqueId ''c'' 2) \<and> cid (person 10 10) = Some (uniqueId ''c'' 10) \<and>
   (2 :: nat) < 2 ^ 53 \<and> (10 :: nat) < 2 ^ 53 \<and>
   cidComparator example_engine (person 2 30) (person 10 10) = - 1 \<and>
   cidComparator example_engine (person 10 10) (person 2 30) = 1 \<and>
   cidComparator example_engine (person 2 30) (person 2 30) = 0 \<and>
   cid (person 2 30\<lparr>cid := None\<rparr>) = None \<and>
   cidComparator example_engine (person 2 30\<lparr>cid := None\<rparr>) (person 10 10) = 0"
  using cidComparator_cases [where left = "person 2 30" and right = "person 10 10"
      and i = 2 and j = 10 and e = example_engine]
    cidComparator_cases [where left = "person 10 10" and right = "person 2 30"
      and i = 10 and j = 2 and e = example_engine]
    cidComparator_cases [where left = "person 2 30" and right = "person 2 30"
      and i = 2 and j = 2 and e = example_engine]
    cidComparator_cases [where left = "person 2 30\<lparr>cid := None\<rparr>" and right = "person 10 10"
      and e = example_engine]
  by (simp add: cid_person)

subsection \<open>Sorting by client id\<close>











subsection \<open>The handler of the broadcast\<close>

lemma direction_set_fields:
  "column (direction_set cell d) = column cell"
  "collection (direction_set cell d) = collection cell"
  "this_model (direction_set cell d) = this_model cell"
  "private_direction (direction_set cell d) = d"
  by (simp_all add: direction_set_def Let_def)

lemma resetCellDirection_fields:
  "column (resetCellDirection cell ev) = column cell"
  "collection (resetCellDirection cell ev) = collection cell"
  "this_model (resetCellDirection cell ev) = this_model cell"
  by (simp_all add: resetCellDirection_def direction_set_fields)

lemma resetCellDirection_direction:
  "ev_collection ev = collection cell \<Longrightarrow>
   private_direction (resetCellDirection cell ev) =
     (if sortByColName ev = name (column cell) then ev_direction ev else None)"
  by (simp add: resetCellDirection_def direction_set_fields)

lemma resetCellDirection_own:
  "ev_collection ev = collection cell \<Longrightarrow> sortByColName ev = name (column cell) \<Longrightarrow>
   resetCellDirection cell ev = direction_set cell (ev_direction ev)"
  by (simp add: resetCellDirection_def)

lemma sort_event_of_fields:
  "sortByColName (sort_event_of e this cn d) = cn"
  "ev_direction (sort_event_of e this cn d) = d"
  "ev_collection (sort_event_of e this cn d) = collection this"
  "ev_comparator (sort_event_of e this cn d) = sort_comparator e this cn d"
  by (simp_all add: sort_event_of_def)

subsection \<open>The dispatch and its broadcast\<close>

lemma broadcasts_append: "broadcasts (xs @ ys) = broadcasts xs @ broadcasts ys"
  by (induction xs rule: broadcasts.induct) simp_all

lemma Collection_sort_Some:
  "comparator c = Some cmp \<Longrightarrow> Collection_sort c = Inr (c\<lparr>models := Array_sort cmp (models c)\<rparr>)"
  by (simp add: Collection_sort_def)

lemma dispatch_plain:
  "\<not> pageable coll \<Longrightarrow>
   dispatch c coll cn ord cmp =
     Inr (coll\<lparr>comparator := Some cmp, models := Array_sort cmp (models coll)\<rparr>, [Sort c])"
  by (simp add: dispatch_def Collection_sort_def)

lemma dispatch_server:
  "pageable coll \<Longrightarrow> mode coll \<noteq> ''client'' \<Longrightarrow>
   \<exists>coll1 cs. dispatch c coll cn ord cmp = Inr (coll1, cs) \<and> broadcasts cs = []"
  by (simp add: dispatch_def setSorting_def Let_def)

lemma dispatch_client:
  "pageable coll \<Longrightarrow> mode coll = ''client'' \<Longrightarrow>
   \<exists>coll1 cs. dispatch c coll cn ord cmp = Inr (coll1, cs) \<and> broadcasts cs = []"
  by (cases "comparator (fullCollection coll)")
     (simp_all add: dispatch_def setSorting_def Let_def Collection_sort_def)

lemma dispatch_returns:
  "\<exists>coll1 cs. dispatch c coll cn ord cmp = Inr (coll1, cs) \<and> broadcasts cs = []"
proof (cases "pageable coll")
  case False
  then show ?thesis by (simp add: dispatch_plain)
next
  case True
  then show ?thesis
    by (cases "mode coll = ''client''") (simp_all add: dispatch_client dispatch_server)
qed

lemma sort_cell_dispatch:
  "dispatch (collection (cells w ! i)) (collections w (collection (cells w ! i))) cn
     (direction_order d) (sort_comparator (engine w) (cells w ! i) cn d) = Inr (coll1, cs) \<Longrightarrow>
   sort_cell i cn d w =
     Inr (trigger (collection (cells w ! i)) (sort_event_of (engine w) (cells w ! i) cn d)
           (w\<lparr>collections := (collections w)(collection (cells w ! i) := coll1),
              calls := calls w @ cs\<rparr>))"
  by (simp add: sort_cell_def sort_comparator_def sort_event_of_def Let_def)

lemma sort_cell_returns:
  "\<exists>w'. sort_cell i cn d w = Inr w' \<and>
        cells w' = map (\<lambda>cell. if collection cell = collection (cells w ! i)
                                then resetCellDirection cell (sort_event_of (engine w) (cells w ! i) cn d)
                                else cell) (cells w) \<and>
        broadcasts (calls w') =
          broadcasts (calls w) @
            [(collection (cells w ! i), sort_event_of (engine w) (cells w ! i) cn d)]"
proof -
  obtain coll1 cs where d: "dispatch (collection (cells w ! i))
      (collections w (collection (cells w ! i))) cn (direction_order d)
      (sort_comparator (engine w) (cells w ! i) cn d) = Inr (coll1, cs)" and b: "broadcasts cs = []"
    using dispatch_returns by blast
  show ?thesis
    using b by (simp add: sort_cell_dispatch [OF d] trigger_def broadcasts_append)
qed

lemma trigger_collections: "collections (trigger c ev w) = collections w"
  by (simp add: trigger_def)


lemma sort_cell_plain:
  assumes "\<not> pageable (collections w (collection (cells w ! i)))"
  shows "\<exists>w'. sort_cell i cn d w = Inr w' \<and>
           cells w' = map (\<lambda>cell. if collection cell = collection (cells w ! i)
                                   then resetCellDirection cell (sort_event_of (engine w) (cells w ! i) cn d)
                                   else cell) (cells w) \<and>
           models (collections w' (collection (cells w ! i))) =
             Array_sort (sort_comparator (engine w) (cells w ! i) cn d)
               (models (collections w (collection (cells w ! i)))) \<and>
           comparator (collections w' (collection (cells w ! i))) =
             Some (sort_comparator (engine w) (cells w ! i) cn d) \<and>
           \<not> pageable (collections w' (collection (cells w ! i)))"
  using assms
  by (simp add: sort_cell_dispatch [OF dispatch_plain [OF assms]] trigger_def)

lemma sort_comparator_ascending:
  "cn \<noteq> [] \<Longrightarrow> sort_comparator e this cn (Some ''ascending'') =
     (\<lambda>left right. this_comparator this (this_value this left cn) (this_value this right cn))"
  by (simp add: sort_comparator_def makeComparator_def direction_order_def Let_def)

lemma sort_comparator_descending:
  "cn \<noteq> [] \<Longrightarrow> sort_comparator e this cn (Some ''descending'') =
     (\<lambda>left right. this_comparator this (this_value this right cn) (this_value this left cn))"
  by (simp add: sort_comparator_def makeComparator_def direction_order_def Let_def)


lemma direction_order_other:
  "d \<noteq> Some ''ascending'' \<Longrightarrow> d \<noteq> Some ''descending'' \<Longrightarrow> direction_order d = None"
  by (simp add: direction_order_def)

lemma dispatch_call_names:
  "\<exists>coll1 cs. dispatch c coll cn ord cmp = Inr (coll1, cs) \<and> broadcasts cs = [] \<and>
      map call_name cs = branch_calls coll"
proof (cases "pageable coll")
  case False
  then show ?thesis by (simp add: dispatch_plain branch_calls_def)
next
  case True
  show ?thesis
  proof (cases "mode coll = ''client''")
    case False
    then show ?thesis using True
      by (simp add: dispatch_def setSorting_def Let_def branch_calls_def)
  next
    case c: True
    show ?thesis
      using True c
      by (cases "comparator (fullCollection coll)")
         (simp_all add: dispatch_def setSorting_def Let_def Collection_sort_def branch_calls_def)
  qed
qed

lemma sort_cell_call_names:
  "\<exists>w'. sort_cell i cn d w = Inr w' \<and>
        map call_name (calls w') =
          map call_name (calls w) @ branch_calls (collections w (collection (cells w ! i)))
            @ [''trigger'']"
proof -
  obtain coll1 cs where d: "dispatch (collection (cells w ! i))
      (collections w (collection (cells w ! i))) cn (direction_order d)
      (sort_comparator (engine w) (cells w ! i) cn d) = Inr (coll1, cs)"
    and n: "map call_name cs = branch_calls (collections w (collection (cells w ! i)))"
    using dispatch_call_names by blast
  show ?thesis
    by (simp add: sort_cell_dispatch [OF d] trigger_def n)
qed


text \<open>
  Claim C7. Every call of \<^verbatim>\<open>sort\<close> returns, whatever the kind and mode of the
  collection, and adds exactly one broadcast to those made before: a \<^verbatim>\<open>backgrid:sort\<close>
  event triggered on the collection of the cell, carrying the column name, the direction,
  the comparator that \<^verbatim>\<open>sort\<close> computed and the collection.
\<close>

theorem sort_broadcasts_once:
  "\<exists>w'. sort_cell i columnName direction w = Inr w' \<and>
        broadcasts (calls w') =
          broadcasts (calls w) @
            [(collection (cells w ! i),
              \<lparr>sortByColName = columnName, ev_direction = direction,
               ev_comparator = sort_comparator (engine w) (cells w ! i) columnName direction,
               ev_collection = collection (cells w ! i)\<rparr>)]"
  using sort_cell_returns [of i columnName direction w]
  by (auto simp add: sort_event_of_def)

theorem sort_broadcasts_once_witness:
  "(\<exists>w'. sort_cell 0 ''age'' (Some ''ascending'') (grid_world age_collection) = Inr w' \<and>
      map fst (broadcasts (calls w')) = [0] \<and>
      map (sortByColName \<circ> snd) (broadcasts (calls w')) = [''age''] \<and>
      map (ev_direction \<circ> snd) (broadcasts (calls w')) = [Some ''ascending''] \<and>
      map (ev_collection \<circ> snd) (broadcasts (calls w')) = [0] \<and>
      map call_name (calls w') = [''sort'', ''trigger'']) \<and>
   (\<exists>w'. sort_cell 0 ''age'' (Some ''ascending'') (grid_world client_collection) = Inr w' \<and>
      map fst (broadcasts (calls w')) = [0] \<and>
      map call_name (calls w') = [''setSorting'', ''fullCollection.sort'', ''trigger'']) \<and>
   (\<exists>w'. sort_cell 0 ''age'' (Some ''ascending'') (grid_world server_collection) = Inr w' \<and>
      map fst (broadcasts (calls w')) = [0] \<and>
      map call_name (calls w') = [''setSorting'', ''fetch'', ''trigger''])"
proof (intro conjI)
  from sort_broadcasts_once [of 0 "''age''" "Some ''ascending''" "grid_world age_collection"]
  obtain w' where s: "sort_cell 0 ''age'' (Some ''ascending'') (grid_world age_collection) = Inr w'"
    and b: "broadcasts (calls w') =
          broadcasts (calls (grid_world age_collection)) @
            [(collection (cells (grid_world age_collection) ! 0),
              \<lparr>sortByColName = ''age'', ev_direction = Some ''ascending'',
               ev_comparator = sort_comparator (engine (grid_world age_collection)) (cells (grid_world age_collection) ! 0) ''age''
                 (Some ''ascending''),
               ev_collection = collection (cells (grid_world age_collection) ! 0)\<rparr>)]"
    by (elim exE conjE)
  from sort_cell_call_names [of 0 "''age''" "Some ''ascending''" "grid_world age_collection"] s
  have n: "map call_name (calls w') = [''sort'', ''trigger'']"
    by (simp add: grid_world_cells branch_calls_def age_collection_def)
  show "\<exists>w'. sort_cell 0 ''age'' (Some ''ascending'') (grid_world age_collection) = Inr w' \<and>
      map fst (broadcasts (calls w')) = [0] \<and>
      map (sortByColName \<circ> snd) (broadcasts (calls w')) = [''age''] \<and>
      map (ev_direction \<circ> snd) (broadcasts (calls w')) = [Some ''ascending''] \<and>
      map (ev_collection \<circ> snd) (broadcasts (calls w')) = [0] \<and>
      map call_name (calls w') = [''sort'', ''trigger'']"
    by (rule exI [of _ w']) (simp add: s b n grid_world_cells age_cell_fields)
next
  from sort_broadcasts_once [of 0 "''age''" "Some ''ascending''" "grid_world client_collection"]
  obtain w' where s: "sort_cell 0 ''age'' (Some ''ascending'') (grid_world client_collection) = Inr w'"
    and b: "broadcasts (calls w') =
          broadcasts (calls (grid_world client_collection)) @
            [(collection (cells (grid_world client_collection) ! 0),
              \<lparr>sortByColName = ''age'', ev_direction = Some ''ascending'',
               ev_comparator = sort_comparator (engine (grid_world client_collection)) (cells (grid_world client_collection) ! 0) ''age''
                 (Some ''ascending''),
               ev_collection = collection (cells (grid_world client_collection) ! 0)\<rparr>)]"
    by (elim exE conjE)
  from sort_cell_call_names [of 0 "''age''" "Some ''ascending''" "grid_world client_collection"] s
  have n: "map call_name (calls w') = [''setSorting'', ''fullCollection.sort'', ''trigger'']"
    by (simp add: grid_world_cells branch_calls_def client_collection_def)
  show "\<exists>w'. sort_cell 0 ''age'' (Some ''ascending'') (grid_world client_collection) = Inr w' \<and>
      map fst (broadcasts (calls w')) = [0] \<and>
      map call_name (calls w') = [''setSorting'', ''fullCollection.sort'', ''trigger'']"
    by (rule exI [of _ w']) (simp add: s b n grid_world_cells age_cell_fields)
next
  from sort_broadcasts_once [of 0 "''age''" "Some ''ascending''" "grid_world server_collection"]
  obtain w' where s: "sort_cell 0 ''age'' (Some ''ascending'') (grid_world server_collection) = Inr w'"
    and b: "broadcasts (calls w') =
          broadcasts (calls (grid_world server_collection)) @
            [(collection (cells (grid_world server_collection) ! 0),
              \<lparr>sortByColName = ''age'', ev_direction = Some ''ascending'',
               ev_comparator = sort_comparator (engine (grid_world server_collection)) (cells (grid_world server_collection) ! 0) ''age''
                 (Some ''ascending''),
               ev_collection = collection (cells (grid_world server_collection) ! 0)\<rparr>)]"
    by (elim exE conjE)
  from sort_cell_call_names [of 0 "''age''" "Some ''ascending''" "grid_world server_collection"] s
  have n: "map call_name (calls w') = [''setSorting'', ''fetch'', ''trigger'']"
    by (simp add: grid_world_cells branch_calls_def server_collection_def)
  show "\<exists>w'. sort_cell 0 ''age'' (Some ''ascending'') (grid_world server_collection) = Inr w' \<and>
      map fst (broadcasts (calls w')) = [0] \<and>
      map call_name (calls w') = [''setSorting'', ''fetch'', ''trigger'']"
    by (rule exI [of _ w']) (simp add: s b n grid_world_cells age_cell_fields)
qed

text \<open>
  Claim C8, as amended. \<^verbatim>\<open>sort\<close> rejects no direction. For every direction other
  than ascending and descending, null and any other value alike, it takes no order, uses
  \<^verbatim>\<open>_cidComparator\<close>, returns, and broadcasts the direction as it was given.
\<close>

theorem sort_accepts_any_direction:
  assumes "direction \<noteq> Some ''ascending''" and "direction \<noteq> Some ''descending''"
  shows "direction_order direction = None \<and>
         (\<exists>w'. sort_cell i columnName direction w = Inr w' \<and>
            broadcasts (calls w') =
              broadcasts (calls w) @
                [(collection (cells w ! i),
                  \<lparr>sortByColName = columnName, ev_direction = direction,
                   ev_comparator = cidComparator (engine w),
                   ev_collection = collection (cells w ! i)\<rparr>)])"
proof -
  have o: "direction_order direction = None"
    using assms by (rule direction_order_other)
  then have "sort_comparator (engine w) (cells w ! i) columnName direction =
               cidComparator (engine w)"
    by (simp add: sort_comparator_def makeComparator_def)
  then show ?thesis
    using o sort_cell_returns [of i columnName direction w]
    by (auto simp add: sort_event_of_def)
qed

theorem sort_accepts_any_direction_witness:
  "Some ''sideways'' \<noteq> Some ''ascending'' \<and> Some ''sideways'' \<noteq> Some ''descending'' \<and>
   direction_order (Some ''sideways'') = None \<and>
   (\<exists>w'. sort_cell 0 ''age'' (Some ''sideways'') (grid_world age_collection) = Inr w' \<and>
      map fst (broadcasts (calls w')) = [0] \<and>
      map (ev_direction \<circ> snd) (broadcasts (calls w')) = [Some ''sideways''])"
proof -
  have h1: "Some ''sideways'' \<noteq> Some ''ascending''" by simp
  have h2: "Some ''sideways'' \<noteq> Some ''descending''" by simp
  from sort_accepts_any_direction [OF h1 h2, of 0 "''age''" "grid_world age_collection"]
  obtain w' where o: "direction_order (Some ''sideways'') = None"
    and s: "sort_cell 0 ''age'' (Some ''sideways'') (grid_world age_collection) = Inr w'"
    and b: "broadcasts (calls w') =
              broadcasts (calls (grid_world age_collection)) @
                [(collection (cells (grid_world age_collection) ! 0),
                  \<lparr>sortByColName = ''age'', ev_direction = Some ''sideways'',
                   ev_comparator = cidComparator (engine (grid_world age_collection)),
                   ev_collection = collection (cells (grid_world age_collection) ! 0)\<rparr>)]"
    by (elim exE conjE)
  have b1: "map fst (broadcasts (calls w')) = [0]"
    by (simp add: b grid_world_cells age_cell_fields)
  have b2: "map (ev_direction \<circ> snd) (broadcasts (calls w')) = [Some ''sideways'']"
    by (simp add: b grid_world_cells)
  show ?thesis
    by (intro conjI exI [of _ w'] h1 h2 o s b1 b2)
qed

text \<open>
  The claim C8 as it was stated fails: with the direction \<^verbatim>\<open>sideways\<close> the call
  returns and does not throw, the order is absent as for null, the collection is sorted
  with \<^verbatim>\<open>_cidComparator\<close>, and the header cell records \<^verbatim>\<open>sideways\<close> as its
  direction.
\<close>

theorem sort_sideways_not_rejected:
  "\<not> isl (sort_cell 0 ''age'' (Some ''sideways'') (grid_world age_collection)) \<and>
   direction_order (Some ''sideways'') = None \<and>
   private_direction
     (cells (projr (sort_cell 0 ''age'' (Some ''sideways'') (grid_world age_collection))) ! 0)
     = Some ''sideways'' \<and>
   comparator
     (collections (projr (sort_cell 0 ''age'' (Some ''sideways'') (grid_world age_collection))) 0)
     = Some (cidComparator example_engine)"
proof -
  have p: "\<not> pageable (collections (grid_world age_collection)
             (collection (cells (grid_world age_collection) ! 0)))"
    by (simp add: grid_world_cells age_collection_def)
  have o: "direction_order (Some ''sideways'') = None"
    by (simp add: direction_order_def)
  have k: "sort_comparator example_engine age_cell ''age'' (Some ''sideways'') =
             cidComparator example_engine"
    by (simp add: sort_comparator_def o makeComparator_def)
  from sort_cell_plain [OF p, of "''age''" "Some ''sideways''"]
  obtain w' where s: "sort_cell 0 ''age'' (Some ''sideways'') (grid_world age_collection) = Inr w'"
    and c: "cells w' = map (\<lambda>cell. if collection cell = collection (cells (grid_world age_collection) ! 0)
              then resetCellDirection cell
                     (sort_event_of (engine (grid_world age_collection)) (cells (grid_world age_collection) ! 0) ''age'' (Some ''sideways''))
              else cell) (cells (grid_world age_collection))"
    and f: "comparator (collections w' (collection (cells (grid_world age_collection) ! 0))) =
              Some (sort_comparator (engine (grid_world age_collection)) (cells (grid_world age_collection) ! 0) ''age'' (Some ''sideways''))"
    by (elim exE conjE)
  have d: "private_direction (cells w' ! 0) = Some ''sideways''"
    by (simp add: c grid_world_cells age_cell_fields age_column_fields
        resetCellDirection_direction sort_event_of_fields)
  have f': "comparator (collections w' 0) = Some (cidComparator example_engine)"
    using f by (simp add: grid_world_cells age_cell_fields k)
  show ?thesis
    by (simp add: s o d f')
qed

subsection \<open>The direction of a header cell\<close>

lemma sort_cell_own:
  assumes "i < length (cells w)"
  shows "\<exists>w'. sort_cell i (name (column (cells w ! i))) d w = Inr w' \<and>
              cells w' ! i = direction_set (cells w ! i) d \<and>
              length (cells w') = length (cells w)"
proof -
  obtain w' where s: "sort_cell i (name (column (cells w ! i))) d w = Inr w'"
    and c: "cells w' = map (\<lambda>cell. if collection cell = collection (cells w ! i)
              then resetCellDirection cell (sort_event_of (engine w) (cells w ! i) (name (column (cells w ! i))) d)
              else cell) (cells w)"
    using sort_cell_returns by blast
  have "cells w' ! i = resetCellDirection (cells w ! i)
          (sort_event_of (engine w) (cells w ! i) (name (column (cells w ! i))) d)"
    using assms by (simp add: c)
  also have "\<dots> = direction_set (cells w ! i) d"
    by (simp add: resetCellDirection_own sort_event_of_fields)
  finally show ?thesis using s c by simp
qed

lemma onClick_step:
  assumes "i < length (cells w)"
    and "callByNeed (sortable (column (cells w ! i))) (this_model (cells w ! i))"
  shows "\<exists>w'. onClick i w = Inr w' \<and>
              cells w' ! i =
                direction_set (cells w ! i) (next_direction (private_direction (cells w ! i))) \<and>
              length (cells w') = length (cells w)"
proof -
  have "onClick i w =
          sort_cell i (name (column (cells w ! i)))
            (next_direction (private_direction (cells w ! i))) w"
    using assms(2) by (simp add: onClick_def Let_def next_direction_def direction_get_def)
  then show ?thesis
    using sort_cell_own [OF assms(1)] by simp
qed

text \<open>
  Claim C9. A click on a header cell whose column is not sortable changes nothing: the
  world after it, with every cell, every collection and the calls made, is the world
  before it.
\<close>

theorem onClick_not_sortable:
  "\<not> callByNeed (sortable (column (cells w ! i))) (this_model (cells w ! i)) \<Longrightarrow>
   onClick i w = Inr w"
  by (simp add: onClick_def Let_def)

theorem onClick_not_sortable_witness:
  "\<not> callByNeed (sortable (column (cells (grid_world age_collection) ! 2)))
       (this_model (cells (grid_world age_collection) ! 2)) \<and>
   onClick 2 (grid_world age_collection) = Inr (grid_world age_collection)"
proof -
  have h: "\<not> callByNeed (sortable (column (cells (grid_world age_collection) ! 2)))
       (this_model (cells (grid_world age_collection) ! 2))"
    by (simp add: grid_world_cells locked_cell_def)
  show ?thesis
    by (intro conjI h onClick_not_sortable [OF h])
qed

text \<open>
  Claim C2. For a sortable column every click returns and moves the direction of the
  cell one step along the cycle ascending, descending, none, ascending. Three clicks from
  the none state give ascending, descending, none, and the classes on the element are
  those of the start without the two direction classes.
\<close>

theorem onClick_cycle:
  assumes "i < length (cells w)"
    and "callByNeed (sortable (column (cells w ! i))) (this_model (cells w ! i))"
  shows "\<exists>w1 w2 w3.
           onClick i w = Inr w1 \<and> onClick i w1 = Inr w2 \<and> onClick i w2 = Inr w3 \<and>
           direction_get (cells w1 ! i) = next_direction (direction_get (cells w ! i)) \<and>
           direction_get (cells w2 ! i) = next_direction (direction_get (cells w1 ! i)) \<and>
           direction_get (cells w3 ! i) = next_direction (direction_get (cells w2 ! i)) \<and>
           (direction_get (cells w ! i) = None \<longrightarrow>
              direction_get (cells w1 ! i) = Some ''ascending'' \<and>
              direction_get (cells w2 ! i) = Some ''descending'' \<and>
              direction_get (cells w3 ! i) = None \<and>
              el_classes (cells w3 ! i) =
                el_classes (cells w ! i) - {''ascending'', ''descending''})"
proof -
  obtain w1 where s1: "onClick i w = Inr w1"
    and c1: "cells w1 ! i =
               direction_set (cells w ! i) (next_direction (private_direction (cells w ! i)))"
    and l1: "length (cells w1) = length (cells w)"
    using onClick_step [OF assms] by blast
  have i1: "i < length (cells w1)" using assms(1) l1 by simp
  have b1: "callByNeed (sortable (column (cells w1 ! i))) (this_model (cells w1 ! i))"
    using assms(2) by (simp add: c1 direction_set_fields)
  obtain w2 where s2: "onClick i w1 = Inr w2"
    and c2: "cells w2 ! i =
               direction_set (cells w1 ! i) (next_direction (private_direction (cells w1 ! i)))"
    and l2: "length (cells w2) = length (cells w1)"
    using onClick_step [OF i1 b1] by blast
  have i2: "i < length (cells w2)" using i1 l2 by simp
  have b2: "callByNeed (sortable (column (cells w2 ! i))) (this_model (cells w2 ! i))"
    using b1 by (simp add: c2 direction_set_fields)
  obtain w3 where s3: "onClick i w2 = Inr w3"
    and c3: "cells w3 ! i =
               direction_set (cells w2 ! i) (next_direction (private_direction (cells w2 ! i)))"
    using onClick_step [OF i2 b2] by blast
  have d1: "direction_get (cells w1 ! i) = next_direction (direction_get (cells w ! i))"
    by (simp add: c1 direction_get_def direction_set_fields)
  have d2: "direction_get (cells w2 ! i) = next_direction (direction_get (cells w1 ! i))"
    by (simp add: c2 direction_get_def direction_set_fields)
  have d3: "direction_get (cells w3 ! i) = next_direction (direction_get (cells w2 ! i))"
    by (simp add: c3 direction_get_def direction_set_fields)
  have e: "el_classes (cells w3 ! i) = el_classes (cells w ! i) - {''ascending'', ''descending''}"
    if n: "direction_get (cells w ! i) = None"
  proof -
    have p0: "private_direction (cells w ! i) = None"
      using n by (simp add: direction_get_def)
    have e1: "cells w1 ! i = direction_set (cells w ! i) (Some ''ascending'')"
      by (simp add: c1 p0 next_direction_def)
    have e2: "cells w2 ! i = direction_set (cells w1 ! i) (Some ''descending'')"
      by (simp add: c2 e1 direction_set_fields next_direction_def)
    have e3: "cells w3 ! i = direction_set (cells w2 ! i) None"
      by (simp add: c3 e2 direction_set_fields next_direction_def)
    show ?thesis
      by (auto simp add: e3 e2 e1 p0 direction_set_def truthy_def Let_def)
  qed
  have f: "direction_get (cells w1 ! i) = Some ''ascending'' \<and>
           direction_get (cells w2 ! i) = Some ''descending'' \<and>
           direction_get (cells w3 ! i) = None"
    if n: "direction_get (cells w ! i) = None"
    using d1 d2 d3 n by (simp add: next_direction_def)
  show ?thesis
  proof (intro exI conjI impI)
    show "onClick i w = Inr w1" by (rule s1)
    show "onClick i w1 = Inr w2" by (rule s2)
    show "onClick i w2 = Inr w3" by (rule s3)
    show "direction_get (cells w1 ! i) = next_direction (direction_get (cells w ! i))"
      by (rule d1)
    show "direction_get (cells w2 ! i) = next_direction (direction_get (cells w1 ! i))"
      by (rule d2)
    show "direction_get (cells w3 ! i) = next_direction (direction_get (cells w2 ! i))"
      by (rule d3)
  next
    assume n: "direction_get (cells w ! i) = None"
    show "direction_get (cells w1 ! i) = Some ''ascending''" using f [OF n] by simp
    show "direction_get (cells w2 ! i) = Some ''descending''" using f [OF n] by simp
    show "direction_get (cells w3 ! i) = None" using f [OF n] by simp
    show "el_classes (cells w3 ! i) = el_classes (cells w ! i) - {''ascending'', ''descending''}"
      by (rule e [OF n])
  qed
qed

theorem onClick_cycle_witness:
  "0 < length (cells (grid_world age_collection)) \<and>
   callByNeed (sortable (column (cells (grid_world age_collection) ! 0)))
     (this_model (cells (grid_world age_collection) ! 0)) \<and>
   direction_get (cells (grid_world age_collection) ! 0) = None \<and>
   (\<exists>w1 w2 w3.
      onClick 0 (grid_world age_collection) = Inr w1 \<and> onClick 0 w1 = Inr w2 \<and>
      onClick 0 w2 = Inr w3 \<and>
      direction_get (cells w1 ! 0) = Some ''ascending'' \<and>
      direction_get (cells w2 ! 0) = Some ''descending'' \<and>
      direction_get (cells w3 ! 0) = None \<and>
      el_classes (cells w3 ! 0) = {})"
proof -
  have h1: "0 < length (cells (grid_world age_collection))"
    by (simp add: grid_world_cells)
  have h2: "callByNeed (sortable (column (cells (grid_world age_collection) ! 0)))
     (this_model (cells (grid_world age_collection) ! 0))"
    by (simp add: grid_world_cells age_cell_fields age_column_fields)
  have h3: "direction_get (cells (grid_world age_collection) ! 0) = None"
    by (simp add: grid_world_cells age_cell_fields direction_get_def)
  have h4: "el_classes (cells (grid_world age_collection) ! 0) = {}"
    by (simp add: grid_world_cells age_cell_fields)
  from onClick_cycle [OF h1 h2] obtain w1 w2 w3 where
    s: "onClick 0 (grid_world age_collection) = Inr w1" "onClick 0 w1 = Inr w2"
       "onClick 0 w2 = Inr w3"
    and n: "direction_get (cells (grid_world age_collection) ! 0) = None \<longrightarrow>
              direction_get (cells w1 ! 0) = Some ''ascending'' \<and>
              direction_get (cells w2 ! 0) = Some ''descending'' \<and>
              direction_get (cells w3 ! 0) = None \<and>
              el_classes (cells w3 ! 0) =
                el_classes (cells (grid_world age_collection) ! 0) - {''ascending'', ''descending''}"
    by (elim exE conjE)
  have e: "direction_get (cells w1 ! 0) = Some ''ascending''"
          "direction_get (cells w2 ! 0) = Some ''descending''"
          "direction_get (cells w3 ! 0) = None"
          "el_classes (cells w3 ! 0) = {}"
    using n h3 by (simp_all add: h4)
  show ?thesis
    by (intro conjI exI [of _ w1] exI [of _ w2] exI [of _ w3] h1 h2 h3 s e)
qed

subsection \<open>One active column per collection\<close>

lemma filter_unique:
  "distinct (map g xs) \<Longrightarrow> x \<in> set (map g xs) \<Longrightarrow> length (filter (\<lambda>y. g y = x) xs) = 1"
proof (induction xs)
  case Nil
  then show ?case by simp
next
  case (Cons a xs)
  show ?case
  proof (cases "g a = x")
    case True
    then have "x \<notin> set (map g xs)" using Cons.prems(1) by auto
    then have "filter (\<lambda>y. g y = x) xs = []" by (auto simp add: filter_empty_conv)
    then show ?thesis using True by simp
  next
    case False
    then have "x \<in> set (map g xs)" using Cons.prems(2) by auto
    then show ?thesis using Cons.IH Cons.prems(1) False by simp
  qed
qed

lemma listeners_after:
  assumes "cells w' = map (\<lambda>cell. if collection cell = c then resetCellDirection cell ev
                                   else cell) (cells w)"
  shows "listeners c w' = map (\<lambda>cell. resetCellDirection cell ev) (listeners c w)"
proof -
  have "listeners c w' =
          map (\<lambda>cell. if collection cell = c then resetCellDirection cell ev else cell)
            (filter (\<lambda>cell. collection cell = c) (cells w))"
    unfolding listeners_def assms filter_map
    by (rule arg_cong [where f = "map _"], rule filter_cong)
       (simp_all add: resetCellDirection_fields)
  also have "\<dots> = map (\<lambda>cell. resetCellDirection cell ev) (filter (\<lambda>cell. collection cell = c) (cells w))"
    by (rule map_cong) simp_all
  finally show ?thesis by (simp add: listeners_def)
qed

lemma active_after:
  assumes "listeners c w' = map (\<lambda>cell. resetCellDirection cell ev) (listeners c w)"
    and "ev_collection ev = c"
  shows "active c w' =
           map (\<lambda>cell. resetCellDirection cell ev)
             (filter (\<lambda>cell. sortByColName ev = name (column cell) \<and> ev_direction ev \<noteq> None)
                (listeners c w))"
proof -
  have "filter (\<lambda>cell. private_direction (resetCellDirection cell ev) \<noteq> None) (listeners c w) =
        filter (\<lambda>cell. sortByColName ev = name (column cell) \<and> ev_direction ev \<noteq> None)
          (listeners c w)"
  proof (rule filter_cong)
    fix cell assume "cell \<in> set (listeners c w)"
    then have "collection cell = c" by (simp add: listeners_def)
    then show "(private_direction (resetCellDirection cell ev) \<noteq> None) =
               (sortByColName ev = name (column cell) \<and> ev_direction ev \<noteq> None)"
      using assms(2) by (simp add: resetCellDirection_direction)
  qed simp
  then show ?thesis
    by (simp add: active_def assms(1) filter_map comp_def)
qed

lemma sort_cell_active:
  "\<exists>w'. sort_cell i cn d w = Inr w' \<and>
     cells w' = map (\<lambda>cell. if collection cell = collection (cells w ! i)
                             then resetCellDirection cell (sort_event_of (engine w) (cells w ! i) cn d)
                             else cell) (cells w) \<and>
     active (collection (cells w ! i)) w' =
       map (\<lambda>cell. resetCellDirection cell (sort_event_of (engine w) (cells w ! i) cn d))
         (filter (\<lambda>cell. cn = name (column cell) \<and> d \<noteq> None)
            (listeners (collection (cells w ! i)) w))"
proof -
  obtain w' where s: "sort_cell i cn d w = Inr w'"
    and cs: "cells w' = map (\<lambda>cell. if collection cell = collection (cells w ! i)
               then resetCellDirection cell (sort_event_of (engine w) (cells w ! i) cn d)
               else cell) (cells w)"
    using sort_cell_returns [of i cn d w] by blast
  have "active (collection (cells w ! i)) w' =
       map (\<lambda>cell. resetCellDirection cell (sort_event_of (engine w) (cells w ! i) cn d))
         (filter (\<lambda>cell. cn = name (column cell) \<and> d \<noteq> None)
            (listeners (collection (cells w ! i)) w))"
    using active_after [OF listeners_after [OF cs]] by (simp add: sort_event_of_fields)
  then show ?thesis using s cs by (intro exI [of _ w'] conjI)
qed

text \<open>
  Claim C3, as amended. After every \<^verbatim>\<open>sort\<close> each header cell that listens to the
  collection of the dispatching cell holds the dispatched direction when its column name is
  the dispatched column name, and no direction otherwise; the cells of other collections
  are as before. So no cell of the collection holds a direction when the dispatched
  direction is null; otherwise as many hold one as have the dispatched column name, each
  with the dispatched direction: exactly one when the column names of these cells are
  distinct and the dispatched column is one of them.
\<close>

theorem sort_active_cells:
  "\<exists>w'. sort_cell i columnName direction w = Inr w' \<and>
     length (cells w') = length (cells w) \<and>
     (\<forall>j<length (cells w).
        collection (cells w ! j) = collection (cells w ! i) \<longrightarrow>
        private_direction (cells w' ! j) =
          (if name (column (cells w ! j)) = columnName then direction else None)) \<and>
     (\<forall>j<length (cells w).
        collection (cells w ! j) \<noteq> collection (cells w ! i) \<longrightarrow>
        cells w' ! j = cells w ! j) \<and>
     (direction = None \<longrightarrow> active (collection (cells w ! i)) w' = []) \<and>
     (direction \<noteq> None \<longrightarrow>
        length (active (collection (cells w ! i)) w') =
          length (filter (\<lambda>cell. name (column cell) = columnName)
                    (listeners (collection (cells w ! i)) w)) \<and>
        (\<forall>cell\<in>set (active (collection (cells w ! i)) w').
           name (column cell) = columnName \<and> private_direction cell = direction)) \<and>
     (direction \<noteq> None \<and>
      distinct (map (\<lambda>cell. name (column cell)) (listeners (collection (cells w ! i)) w)) \<and>
      columnName \<in> set (map (\<lambda>cell. name (column cell))
                          (listeners (collection (cells w ! i)) w)) \<longrightarrow>
        length (active (collection (cells w ! i)) w') = 1)"
proof -
  define c where "c = collection (cells w ! i)"
  define ev where "ev = sort_event_of (engine w) (cells w ! i) columnName direction"
  have evc: "ev_collection ev = c" and evn: "sortByColName ev = columnName"
    and evd: "ev_direction ev = direction"
    by (simp_all add: ev_def c_def sort_event_of_fields)
  obtain w' where s: "sort_cell i columnName direction w = Inr w'"
    and cs: "cells w' = map (\<lambda>cell. if collection cell = c then resetCellDirection cell ev
                                     else cell) (cells w)"
    and act: "active c w' =
               map (\<lambda>cell. resetCellDirection cell ev)
                 (filter (\<lambda>cell. columnName = name (column cell) \<and> direction \<noteq> None)
                    (listeners c w))"
    using sort_cell_active [of i columnName direction w] unfolding c_def ev_def by blast
  have len: "length (cells w') = length (cells w)" by (simp add: cs)
  have own: "private_direction (cells w' ! j) =
               (if name (column (cells w ! j)) = columnName then direction else None)"
    if "j < length (cells w)" and "collection (cells w ! j) = c" for j
    using that by (simp add: cs resetCellDirection_direction evc evn evd eq_commute)
  have other: "cells w' ! j = cells w ! j"
    if "j < length (cells w)" and "collection (cells w ! j) \<noteq> c" for j
    using that by (simp add: cs)
  have none: "active c w' = []" if "direction = None"
    using that by (simp add: act)
  have count: "length (active c w') =
                 length (filter (\<lambda>cell. name (column cell) = columnName) (listeners c w))"
    if "direction \<noteq> None"
    using that by (simp add: act eq_commute)
  have which: "name (column cell) = columnName \<and> private_direction cell = direction"
    if mem: "cell \<in> set (active c w')" for cell
  proof -
    obtain x where x: "x \<in> set (listeners c w)" and n: "columnName = name (column x)"
      and r: "cell = resetCellDirection x ev"
      using mem by (auto simp add: act)
    have "collection x = c" using x by (simp add: listeners_def)
    then show ?thesis
      using n by (simp add: r resetCellDirection_fields resetCellDirection_direction evc evn evd)
  qed
  have one: "length (active c w') = 1"
    if d: "direction \<noteq> None"
      and u: "distinct (map (\<lambda>cell. name (column cell)) (listeners c w))"
      and m: "columnName \<in> set (map (\<lambda>cell. name (column cell)) (listeners c w))"
    using count [OF d] filter_unique [OF u m] by simp
  show ?thesis
    unfolding c_def [symmetric]
  proof (intro exI conjI impI allI ballI)
    show "sort_cell i columnName direction w = Inr w'" by (rule s)
    show "length (cells w') = length (cells w)" by (rule len)
  next
    fix j assume "j < length (cells w)" and "collection (cells w ! j) = c"
    then show "private_direction (cells w' ! j) =
                 (if name (column (cells w ! j)) = columnName then direction else None)"
      by (rule own)
  next
    fix j assume "j < length (cells w)" and "collection (cells w ! j) \<noteq> c"
    then show "cells w' ! j = cells w ! j" by (rule other)
  next
    assume "direction = None"
    then show "active c w' = []" by (rule none)
  next
    assume "direction \<noteq> None"
    then show "length (active c w') =
                 length (filter (\<lambda>cell. name (column cell) = columnName) (listeners c w))"
      by (rule count)
  next
    fix cell assume "cell \<in> set (active c w')"
    then show "name (column cell) = columnName" using which by blast
  next
    fix cell assume "cell \<in> set (active c w')"
    then show "private_direction cell = direction" using which by blast
  next
    assume a: "direction \<noteq> None \<and>
      distinct (map (\<lambda>cell. name (column cell)) (listeners c w)) \<and>
      columnName \<in> set (map (\<lambda>cell. name (column cell)) (listeners c w))"
    show "length (active c w') = 1"
      using a by (intro one) simp_all
  qed
qed

theorem sort_active_cells_witness:
  "Some ''ascending'' \<noteq> None \<and>
   distinct (map (\<lambda>cell. name (column cell))
      (listeners (collection (cells (grid_world age_collection) ! 0)) (grid_world age_collection))) \<and>
   ''age'' \<in> set (map (\<lambda>cell. name (column cell))
      (listeners (collection (cells (grid_world age_collection) ! 0)) (grid_world age_collection))) \<and>
   (\<exists>w'. sort_cell 0 ''age'' (Some ''ascending'') (grid_world age_collection) = Inr w' \<and>
      length (active 0 w') = 1 \<and>
      private_direction (cells w' ! 0) = Some ''ascending'' \<and>
      private_direction (cells w' ! 1) = None \<and>
      cells w' ! 3 = other_cell) \<and>
   (\<exists>w'. sort_cell 0 ''age'' None (grid_world age_collection) = Inr w' \<and>
      active 0 w' = [] \<and>
      cells w' ! 3 = other_cell)"
proof -
  have c0: "collection (cells (grid_world age_collection) ! 0) = 0"
    by (simp add: grid_world_cells age_cell_fields)
  have h0: "Some ''ascending'' \<noteq> None" by simp
  have h1: "distinct (map (\<lambda>cell. name (column cell))
      (listeners (collection (cells (grid_world age_collection) ! 0)) (grid_world age_collection)))"
    by (simp add: c0 listeners_grid_world age_cell_fields age_column_fields name_cell_def
        locked_cell_def)
  have h2: "''age'' \<in> set (map (\<lambda>cell. name (column cell))
      (listeners (collection (cells (grid_world age_collection) ! 0)) (grid_world age_collection)))"
    by (simp add: c0 listeners_grid_world age_cell_fields age_column_fields)
  have o: "3 < length (cells (grid_world age_collection)) \<and>
           collection (cells (grid_world age_collection) ! 3) \<noteq> 0"
    by (simp add: grid_world_cells other_cell_def)
  have x: "cells (grid_world age_collection) ! 3 = other_cell"
    by (simp add: grid_world_cells)
  have y0: "0 < length (cells (grid_world age_collection)) \<and>
            collection (cells (grid_world age_collection) ! 0) = 0 \<and>
            name (column (cells (grid_world age_collection) ! 0)) = ''age''"
    by (simp add: grid_world_cells age_cell_fields age_column_fields)
  have y1: "1 < length (cells (grid_world age_collection)) \<and>
            collection (cells (grid_world age_collection) ! 1) = 0 \<and>
            name (column (cells (grid_world age_collection) ! 1)) \<noteq> ''age''"
    by (simp add: grid_world_cells name_cell_def)
  from sort_active_cells [of 0 "''age''" "Some ''ascending''" "grid_world age_collection"]
  obtain w1 where s1: "sort_cell 0 ''age'' (Some ''ascending'') (grid_world age_collection) = Inr w1"
    and d1: "\<forall>j<length (cells (grid_world age_collection)).
              collection (cells (grid_world age_collection) ! j) =
                collection (cells (grid_world age_collection) ! 0) \<longrightarrow>
              private_direction (cells w1 ! j) =
                (if name (column (cells (grid_world age_collection) ! j)) = ''age''
                 then Some ''ascending'' else None)"
    and u1: "\<forall>j<length (cells (grid_world age_collection)).
              collection (cells (grid_world age_collection) ! j) \<noteq>
                collection (cells (grid_world age_collection) ! 0) \<longrightarrow>
              cells w1 ! j = cells (grid_world age_collection) ! j"
    and a1: "Some ''ascending'' \<noteq> None \<and>
      distinct (map (\<lambda>cell. name (column cell))
        (listeners (collection (cells (grid_world age_collection) ! 0)) (grid_world age_collection))) \<and>
      ''age'' \<in> set (map (\<lambda>cell. name (column cell))
        (listeners (collection (cells (grid_world age_collection) ! 0)) (grid_world age_collection))) \<longrightarrow>
        length (active (collection (cells (grid_world age_collection) ! 0)) w1) = 1"
    by (elim exE conjE)
  from sort_active_cells [of 0 "''age''" None "grid_world age_collection"]
  obtain w2 where s2: "sort_cell 0 ''age'' None (grid_world age_collection) = Inr w2"
    and u2: "\<forall>j<length (cells (grid_world age_collection)).
              collection (cells (grid_world age_collection) ! j) \<noteq>
                collection (cells (grid_world age_collection) ! 0) \<longrightarrow>
              cells w2 ! j = cells (grid_world age_collection) ! j"
    and a2: "None = (None :: string option) \<longrightarrow>
               active (collection (cells (grid_world age_collection) ! 0)) w2 = []"
    by (elim exE conjE)
  have r1: "length (active 0 w1) = 1" using a1 h0 h1 h2 by (simp only: c0 simp_thms)
  have r2: "active 0 w2 = []" using a2 by (simp add: c0)
  have k1: "cells w1 ! 3 = other_cell" using u1 o by (simp add: c0 x)
  have k2: "cells w2 ! 3 = other_cell" using u2 o by (simp add: c0 x)
  have p0: "private_direction (cells w1 ! 0) = Some ''ascending''"
    using d1 [rule_format, of 0] y0 by (simp only: c0 simp_thms if_True)
  have p1: "private_direction (cells w1 ! 1) = None"
    using d1 [rule_format, of 1] y1 by (simp only: c0 simp_thms if_False)
  show ?thesis
    by (intro conjI exI [of _ w1] exI [of _ w2] h0 h1 h2 s1 s2 r1 r2 k1 k2 p0 p1)
qed

text \<open>
  The claim C3 as it was stated fails. With two header cells for the column
  \<^verbatim>\<open>age\<close> on one collection, both hold a direction after a sort on \<^verbatim>\<open>age\<close>; after a
  sort on a column that no header cell has, none holds one although the direction is
  ascending.
\<close>

theorem sort_twin_columns_active:
  "\<not> isl (sort_cell 0 ''age'' (Some ''ascending'') twin_world) \<and>
   length (active 0 (projr (sort_cell 0 ''age'' (Some ''ascending'') twin_world))) = 2 \<and>
   \<not> isl (sort_cell 0 ''height'' (Some ''ascending'') (grid_world age_collection)) \<and>
   active 0 (projr (sort_cell 0 ''height'' (Some ''ascending'') (grid_world age_collection))) = []"
proof -
  have t0: "collection (cells twin_world ! 0) = 0"
    by (simp add: twin_world_def age_cell_fields)
  have tl: "listeners 0 twin_world = [age_cell, name_cell, age_cell]"
    by (simp add: listeners_def twin_world_def age_cell_fields name_cell_def)
  have c0: "collection (cells (grid_world age_collection) ! 0) = 0"
    by (simp add: grid_world_cells age_cell_fields)
  from sort_cell_active [of 0 "''age''" "Some ''ascending''" twin_world]
  obtain w1 where s1: "sort_cell 0 ''age'' (Some ''ascending'') twin_world = Inr w1"
    and a1: "active (collection (cells twin_world ! 0)) w1 =
       map (\<lambda>cell. resetCellDirection cell
              (sort_event_of (engine twin_world) (cells twin_world ! 0) ''age'' (Some ''ascending'')))
         (filter (\<lambda>cell. ''age'' = name (column cell) \<and> Some ''ascending'' \<noteq> None)
            (listeners (collection (cells twin_world ! 0)) twin_world))"
    by (elim exE conjE)
  from sort_cell_active [of 0 "''height''" "Some ''ascending''" "grid_world age_collection"]
  obtain w2 where s2: "sort_cell 0 ''height'' (Some ''ascending'') (grid_world age_collection) = Inr w2"
    and a2: "active (collection (cells (grid_world age_collection) ! 0)) w2 =
       map (\<lambda>cell. resetCellDirection cell
              (sort_event_of (engine (grid_world age_collection))
                 (cells (grid_world age_collection) ! 0) ''height'' (Some ''ascending'')))
         (filter (\<lambda>cell. ''height'' = name (column cell) \<and> Some ''ascending'' \<noteq> None)
            (listeners (collection (cells (grid_world age_collection) ! 0))
               (grid_world age_collection)))"
    by (elim exE conjE)
  have r1: "length (active 0 w1) = 2"
    using a1 by (simp add: t0 tl age_cell_fields age_column_fields name_cell_def)
  have r2: "active 0 w2 = []"
    using a2 by (simp add: c0 listeners_grid_world age_cell_fields age_column_fields
        name_cell_def locked_cell_def)
  show ?thesis
    by (simp add: s1 s2 r1 r2)
qed

subsection \<open>Sorting a plain collection\<close>

text \<open>
  Claim C4. On a plain collection whose models have the ages 30, 10, 20, with the
  default value extractor and the default comparator, \<^verbatim>\<open>sort\<close> on \<^verbatim>\<open>age\<close>
  ascending leaves the ages in the order 10, 20, 30 and descending in the order 30, 20, 10.
\<close>

theorem sort_ages:
  assumes v: "this_value (cells w ! i) = HeaderCell_value"
    and c: "this_comparator (cells w ! i) = HeaderCell_comparator e"
    and p: "\<not> pageable (collections w (collection (cells w ! i)))"
    and m: "map (\<lambda>m. get m ''age'') (models (collections w (collection (cells w ! i)))) =
              [JNum 30, JNum 10, JNum 20]"
  shows "(\<exists>w'. sort_cell i ''age'' (Some ''ascending'') w = Inr w' \<and>
            map (\<lambda>m. get m ''age'') (models (collections w' (collection (cells w ! i)))) =
              [JNum 10, JNum 20, JNum 30]) \<and>
         (\<exists>w'. sort_cell i ''age'' (Some ''descending'') w = Inr w' \<and>
            map (\<lambda>m. get m ''age'') (models (collections w' (collection (cells w ! i)))) =
              [JNum 30, JNum 20, JNum 10])"
proof -
  obtain a b d where abd: "models (collections w (collection (cells w ! i))) = [a, b, d]"
    and ga: "get a ''age'' = JNum 30" and gb: "get b ''age'' = JNum 10"
    and gd: "get d ''age'' = JNum 20"
    using m by (auto simp add: map_eq_Cons_conv)
  have asc: "Array_sort (sort_comparator (engine w) (cells w ! i) ''age'' (Some ''ascending'')) [a, b, d]
               = [b, d, a]"
    by (simp add: sort_comparator_ascending v c HeaderCell_value_def ga gb gd HeaderCell_comparator_numbers)
  have desc: "Array_sort (sort_comparator (engine w) (cells w ! i) ''age'' (Some ''descending'')) [a, b, d]
               = [a, d, b]"
    by (simp add: sort_comparator_descending v c HeaderCell_value_def ga gb gd HeaderCell_comparator_numbers)
  obtain w1 where s1: "sort_cell i ''age'' (Some ''ascending'') w = Inr w1"
    and m1: "models (collections w1 (collection (cells w ! i))) =
               Array_sort (sort_comparator (engine w) (cells w ! i) ''age'' (Some ''ascending''))
                 (models (collections w (collection (cells w ! i))))"
    using sort_cell_plain [OF p, of "''age''" "Some ''ascending''"] by blast
  obtain w2 where s2: "sort_cell i ''age'' (Some ''descending'') w = Inr w2"
    and m2: "models (collections w2 (collection (cells w ! i))) =
               Array_sort (sort_comparator (engine w) (cells w ! i) ''age'' (Some ''descending''))
                 (models (collections w (collection (cells w ! i))))"
    using sort_cell_plain [OF p, of "''age''" "Some ''descending''"] by blast
  have r1: "map (\<lambda>m. get m ''age'') (models (collections w1 (collection (cells w ! i)))) =
              [JNum 10, JNum 20, JNum 30]"
    unfolding m1 abd asc by (simp add: ga gb gd)
  have r2: "map (\<lambda>m. get m ''age'') (models (collections w2 (collection (cells w ! i)))) =
              [JNum 30, JNum 20, JNum 10]"
    unfolding m2 abd desc by (simp add: ga gb gd)
  show ?thesis
  proof (intro conjI)
    show "\<exists>w'. sort_cell i ''age'' (Some ''ascending'') w = Inr w' \<and>
            map (\<lambda>m. get m ''age'') (models (collections w' (collection (cells w ! i)))) =
              [JNum 10, JNum 20, JNum 30]"
      by (rule exI [of _ w1], rule conjI [OF s1 r1])
    show "\<exists>w'. sort_cell i ''age'' (Some ''descending'') w = Inr w' \<and>
            map (\<lambda>m. get m ''age'') (models (collections w' (collection (cells w ! i)))) =
              [JNum 30, JNum 20, JNum 10]"
      by (rule exI [of _ w2], rule conjI [OF s2 r2])
  qed
qed

theorem sort_ages_witness:
  "this_value (cells (grid_world age_collection) ! 0) = HeaderCell_value \<and>
   this_comparator (cells (grid_world age_collection) ! 0) =
     HeaderCell_comparator example_engine \<and>
   \<not> pageable (collections (grid_world age_collection)
         (collection (cells (grid_world age_collection) ! 0))) \<and>
   map (\<lambda>m. get m ''age'')
     (models (collections (grid_world age_collection)
        (collection (cells (grid_world age_collection) ! 0)))) = [JNum 30, JNum 10, JNum 20] \<and>
   (\<exists>w'. sort_cell 0 ''age'' (Some ''ascending'') (grid_world age_collection) = Inr w' \<and>
      map (\<lambda>m. get m ''age'') (models (collections w' 0)) = [JNum 10, JNum 20, JNum 30]) \<and>
   (\<exists>w'. sort_cell 0 ''age'' (Some ''descending'') (grid_world age_collection) = Inr w' \<and>
      map (\<lambda>m. get m ''age'') (models (collections w' 0)) = [JNum 30, JNum 20, JNum 10])"
proof -
  have c0: "collection (cells (grid_world age_collection) ! 0) = 0"
    by (simp add: grid_world_cells age_cell_fields)
  have v: "this_value (cells (grid_world age_collection) ! 0) = HeaderCell_value"
    by (simp add: grid_world_cells age_cell_fields)
  have c: "this_comparator (cells (grid_world age_collection) ! 0) =
             HeaderCell_comparator example_engine"
    by (simp add: grid_world_cells age_cell_fields)
  have p: "\<not> pageable (collections (grid_world age_collection)
         (collection (cells (grid_world age_collection) ! 0)))"
    by (simp add: grid_world_cells age_collection_def)
  have m: "map (\<lambda>m. get m ''age'')
     (models (collections (grid_world age_collection)
        (collection (cells (grid_world age_collection) ! 0)))) = [JNum 30, JNum 10, JNum 20]"
    by (simp add: grid_world_cells age_collection_def get_person)
  have r: "(\<exists>w'. sort_cell 0 ''age'' (Some ''ascending'') (grid_world age_collection) = Inr w' \<and>
      map (\<lambda>m. get m ''age'') (models (collections w' 0)) = [JNum 10, JNum 20, JNum 30]) \<and>
   (\<exists>w'. sort_cell 0 ''age'' (Some ''descending'') (grid_world age_collection) = Inr w' \<and>
      map (\<lambda>m. get m ''age'') (models (collections w' 0)) = [JNum 30, JNum 20, JNum 10])"
    using sort_ages [OF v c p m] by (simp only: c0)
  show ?thesis
    by (intro conjI v c p m conjunct1 [OF r] conjunct2 [OF r])
qed





end
